theory Spec2Isabelle
  imports Complex_Main "HOL-Library.Word"
begin

section \<open>JavaScript strings\<close>

text \<open>
  A JavaScript string is a sequence of UTF-16 code units, and \<open>length\<close> counts code
  units. An ASCII literal is brought in with \<open>js\<close>.
\<close>

type_synonym code_unit = "16 word"
type_synonym js_string = "code_unit list"

definition js :: "string \<Rightarrow> js_string" where
  "js cs = map of_char cs"

text \<open>The regular-expression class \<open>\d\<close>: the ten ASCII digits.\<close>

definition is_digit :: "code_unit \<Rightarrow> bool" where
  "is_digit c = (0x30 \<le> c \<and> c \<le> 0x39)"

text \<open>The class \<open>\w\<close> (no \<open>u\<close> or \<open>i\<close> flag): ASCII letters, digits and underscore.\<close>

definition is_word_char :: "code_unit \<Rightarrow> bool" where
  "is_word_char c =
     ((0x41 \<le> c \<and> c \<le> 0x5A) \<or> (0x61 \<le> c \<and> c \<le> 0x7A) \<or> is_digit c \<or> c = 0x5F)"

text \<open>
  The class \<open>\s\<close>: the WhiteSpace and LineTerminator code points of ECMAScript. The
  same set is what \<open>String.prototype.trim\<close> strips.
\<close>

definition is_space :: "code_unit \<Rightarrow> bool" where
  "is_space c =
     ((0x09 \<le> c \<and> c \<le> 0x0D) \<or> c = 0x20 \<or> c = 0xA0 \<or> c = 0x1680
      \<or> (0x2000 \<le> c \<and> c \<le> 0x200A) \<or> c = 0x2028 \<or> c = 0x2029 \<or> c = 0x202F
      \<or> c = 0x205F \<or> c = 0x3000 \<or> c = 0xFEFF)"

text \<open>\<open>s.trim()\<close>: the string without its leading and trailing white space.\<close>

definition trim :: "js_string \<Rightarrow> js_string" where
  "trim s = rev (dropWhile is_space (rev (dropWhile is_space s)))"

section \<open>KeywordValidator\<close>

definition MAX_KEYWORD_LENGTH :: nat where
  "MAX_KEYWORD_LENGTH = 50"

text \<open>The character class \<open>[\w\s-]\<close> of \<open>KEYWORD_REGEX\<close>.\<close>

definition keyword_char :: "code_unit \<Rightarrow> bool" where
  "keyword_char c = (is_word_char c \<or> is_space c \<or> c = 0x2D)"

text \<open>
  \<open>KEYWORD_REGEX.test(s)\<close> for \<open>/^[\w\s-]+$/\<close>: the pattern is anchored at both ends
  and has no \<open>m\<close> flag, so it accepts exactly the non-empty strings all of whose code
  units are in the class.
\<close>

definition KEYWORD_REGEX_test :: "js_string \<Rightarrow> bool" where
  "KEYWORD_REGEX_test s = (s \<noteq> [] \<and> list_all keyword_char s)"

text \<open>The three \<open>ValidationError\<close>s, by message.\<close>

datatype validation_error =
    KeywordRequired
  | KeywordTooLong
  | KeywordInvalidCharacters

text \<open>
  \<open>KeywordValidator.validate\<close>. The argument is \<open>None\<close> for an absent keyword
  (\<open>undefined\<close> or \<open>null\<close>); \<open>!keyword\<close> holds for an absent keyword and for the
  empty string. The three checks read the raw keyword; \<open>trim\<close> is applied last.
\<close>

definition validate :: "js_string option \<Rightarrow> validation_error + js_string" where
  "validate keyword =
     (case keyword of
        None \<Rightarrow> Inl KeywordRequired
      | Some k \<Rightarrow>
          if k = [] then Inl KeywordRequired
          else if length k > MAX_KEYWORD_LENGTH then Inl KeywordTooLong
          else if \<not> KEYWORD_REGEX_test k then Inl KeywordInvalidCharacters
          else Inr (trim k))"

text \<open>
  The Keyword of the data model, in the specification's words: a string of 1 to 50
  characters, each of them a word character, white space or a hyphen.
\<close>

definition spec_Keyword :: "js_string \<Rightarrow> bool" where
  "spec_Keyword k = (1 \<le> length k \<and> length k \<le> 50 \<and> list_all keyword_char k)"

section \<open>AmazonUrlBuilder\<close>

text \<open>
  \<open>encodeURIComponent\<close> is a built-in of the runtime and is taken as a parameter; it
  throws \<open>URIError\<close> on a lone surrogate, which is the value \<open>None\<close> here.
\<close>

definition build :: "(js_string \<Rightarrow> js_string option) \<Rightarrow> js_string \<Rightarrow> js_string option" where
  "build encodeURIComponent keyword =
     map_option (\<lambda>e. js ''https://www.amazon.com/s?k='' @ e) (encodeURIComponent keyword)"

section \<open>AmazonHttpClient\<close>

text \<open>
  What the transport hands to axios for one request, once its own redirect handling
  (\<open>maxRedirects: 5\<close>) is done: a final HTTP response with its status and body, or a
  failure without any response (connection error, timeout, oversized body, too many
  redirects).
\<close>

datatype upstream = HttpResponse nat js_string | NetworkFailure js_string

text \<open>The \<open>validateStatus\<close> option passed to \<open>axios.get\<close>.\<close>

definition validateStatus :: "nat \<Rightarrow> bool" where
  "validateStatus status = (200 \<le> status \<and> status < 400)"

text \<open>
  The outcome of \<open>await axios.get(...)\<close>: the promise resolves with a response
  (status, \<open>data\<close>), or rejects with an error \<open>err\<close>, of which the loop reads
  \<open>err.response?.status\<close> and \<open>err.message\<close>.
\<close>

datatype axios_result = Resolved nat js_string | Rejected "nat option" js_string

function decimal :: "nat \<Rightarrow> js_string" where
  "decimal n = (if n < 10 then [of_nat (48 + n)]
                else decimal (n div 10) @ [of_nat (48 + n mod 10)])"
  by pat_completeness auto
termination
  by (relation "measure id") auto

text \<open>
  The contract of axios for \<open>validateStatus\<close>: a response whose status the predicate
  accepts resolves the promise, any other response rejects it with that response
  attached; a failure without response rejects with \<open>err.response\<close> undefined.
\<close>

definition axios_settle :: "upstream \<Rightarrow> axios_result" where
  "axios_settle u =
     (case u of
        HttpResponse status body \<Rightarrow>
          if validateStatus status then Resolved status body
          else Rejected (Some status) (js ''Request failed with status code '' @ decimal status)
      | NetworkFailure message \<Rightarrow> Rejected None message)"

text \<open>The three errors \<open>fetchHtml\<close> throws, by message template.\<close>

datatype fetch_error =
    RedirectBlocked nat
  | FailedAfterRetries nat js_string
  | FailedToFetch "nat + js_string"

record AmazonHttpClient =
  maxRetries :: nat
  retryDelay :: nat

text \<open>The client the program constructs: the constructor's defaults.\<close>

definition httpClient :: AmazonHttpClient where
  "httpClient = \<lparr>maxRetries = 3, retryDelay = 1000\<rparr>"

text \<open>
  What a run of \<open>fetchHtml\<close> does to the outside: the number of \<open>axios.get\<close> calls
  issued so far, and the \<open>setTimeout\<close> delays awaited so far, in milliseconds.
\<close>

record fetch_log =
  requests :: nat
  delays :: "nat list"

text \<open>
  The \<open>while\<close> loop of \<open>fetchHtml\<close>, with the loop variable \<open>attempt\<close> as an
  argument. \<open>http n\<close> is the outcome of the \<open>n\<close>-th call of \<open>axios.get\<close> on the
  URL. A thrown error is \<open>Inl\<close>; \<open>Inr None\<close> is the \<open>undefined\<close> returned when the
  loop condition fails.
\<close>

function fetchHtml_loop ::
  "AmazonHttpClient \<Rightarrow> (nat \<Rightarrow> axios_result) \<Rightarrow> nat \<Rightarrow> fetch_log
     \<Rightarrow> (fetch_error + js_string option) \<times> fetch_log" where
  "fetchHtml_loop this http attempt lg =
     (if attempt \<le> maxRetries this then
        (case http (requests lg) of
           Resolved st data \<Rightarrow> (Inr (Some data), lg\<lparr>requests := requests lg + 1\<rparr>)
         | Rejected status message \<Rightarrow>
             (if (case status of None \<Rightarrow> False | Some st \<Rightarrow> st \<noteq> 0 \<and> 300 \<le> st \<and> st < 400)
              then (Inl (RedirectBlocked (the status)), lg\<lparr>requests := requests lg + 1\<rparr>)
              else if status = Some 503 then
                (if attempt + 1 > maxRetries this
                 then (Inl (FailedAfterRetries (maxRetries this) message),
                       lg\<lparr>requests := requests lg + 1\<rparr>)
                 else fetchHtml_loop this http (attempt + 1)
                        (lg\<lparr>requests := requests lg + 1,
                            delays := delays lg @ [retryDelay this * (attempt + 1)]\<rparr>))
              else (Inl (FailedToFetch
                           (case status of
                              None \<Rightarrow> Inr message
                            | Some st \<Rightarrow> if st \<noteq> 0 then Inl st else Inr message)),
                    lg\<lparr>requests := requests lg + 1\<rparr>)))
      else (Inr None, lg))"
  by pat_completeness auto
termination
  by (relation "measure (\<lambda>(this, http, attempt, lg). Suc (maxRetries this) - attempt)") auto

definition fetchHtml ::
  "AmazonHttpClient \<Rightarrow> (nat \<Rightarrow> axios_result) \<Rightarrow> fetch_log
     \<Rightarrow> (fetch_error + js_string option) \<times> fetch_log" where
  "fetchHtml this http lg = fetchHtml_loop this http 0 lg"

section \<open>AmazonHtmlParser\<close>

text \<open>
  The DOM library is outside the program. Of an element the extractors read
  \<open>textContent\<close> and \<open>src\<close>, each possibly undefined; of a search-result item they
  read the first match of four selectors, \<open>None\<close> when \<open>querySelector\<close> returns
  \<open>null\<close>.
\<close>

record element =
  textContent :: "js_string option"
  src :: "js_string option"

record item =
  h2_span :: "element option"
  a_icon_alt :: "element option"
  aria_label_ratings :: "element option"
  img_s_image :: "element option"

text \<open>
  A JavaScript number read from decimal text: \<open>NaN\<close>, or \<open>Num q\<close> for the exact
  decimal value \<open>q\<close> of the text. \<open>Num q\<close> stands for the number the runtime stores for
  that text: the double nearest to \<open>q\<close>, which is \<open>q\<close> itself for an integer below
  \<open>2^53\<close>, and \<open>Infinity\<close> when \<open>q\<close> is beyond the range of doubles. Rounding is
  monotone, so it keeps the sign and the order of the values.
\<close>

datatype js_number = NaN | Num rat

record ProductRecord =
  title :: "js_string option"
  rating :: "js_number option"
  reviews :: "js_number option"
  image_url :: "js_string option"

text \<open>The value of a string of ASCII digits, read in base ten.\<close>

definition decimal_value :: "js_string \<Rightarrow> nat" where
  "decimal_value s = foldl (\<lambda>n c. 10 * n + (unat c - 48)) 0 s"

text \<open>The class \<open>[0-9.]\<close> of the rating pattern.\<close>

definition is_rating_char :: "code_unit \<Rightarrow> bool" where
  "is_rating_char c = (is_digit c \<or> c = 0x2E)"

text \<open>
  The pattern \<open>/([0-9.]+)\s+out of/\<close> tried at the start of \<open>s\<close>; the result is the
  capture group. Both quantifiers are greedy, and giving back a character never
  helps: after a shorter run of \<open>[0-9.]\<close> the next character is again in \<open>[0-9.]\<close>,
  not white space, and after a shorter run of white space the next character is
  again white space, not \<open>o\<close>. So the match takes the two maximal runs.
\<close>

definition rating_match_at :: "js_string \<Rightarrow> js_string option" where
  "rating_match_at s =
     (let num = takeWhile is_rating_char s;
          r = dropWhile is_rating_char s;
          sp = takeWhile is_space r;
          r' = dropWhile is_space r
      in if num \<noteq> [] \<and> sp \<noteq> [] \<and> take 6 r' = js ''out of'' then Some num else None)"

text \<open>\<open>text.match(...)\<close>: the leftmost position where the pattern matches.\<close>

fun rating_match :: "js_string \<Rightarrow> js_string option" where
  "rating_match [] = None"
| "rating_match (c # cs) =
     (case rating_match_at (c # cs) of
        Some g \<Rightarrow> Some g
      | None \<Rightarrow> rating_match cs)"

text \<open>
  \<open>parseFloat\<close> on a string of digits and dots, the only strings the capture group
  holds: the longest prefix of the form \<open>digits\<close>, \<open>digits.digits\<close>, \<open>digits.\<close> or
  \<open>.digits\<close> is read, and \<open>NaN\<close> results when there is none.
\<close>

definition parseFloat :: "js_string \<Rightarrow> js_number" where
  "parseFloat s =
     (let ip = takeWhile is_digit s;
          r = dropWhile is_digit s;
          fp = (case r of [] \<Rightarrow> [] | c # r' \<Rightarrow> if c = 0x2E then takeWhile is_digit r' else [])
      in if ip = [] \<and> fp = [] then NaN
         else Num (of_nat (decimal_value ip) + of_nat (decimal_value fp) / 10 ^ length fp))"

definition getTitle :: "item \<Rightarrow> js_string option" where
  "getTitle it =
     (case h2_span it of
        None \<Rightarrow> None
      | Some el \<Rightarrow>
          (case textContent el of
             None \<Rightarrow> None
           | Some t \<Rightarrow> if trim t = [] then None else Some (trim t)))"

definition getRating :: "item \<Rightarrow> js_number option" where
  "getRating it =
     (let text = (case a_icon_alt it of
                    None \<Rightarrow> []
                  | Some el \<Rightarrow> (case textContent el of None \<Rightarrow> [] | Some t \<Rightarrow> t))
      in case rating_match text of
           Some g \<Rightarrow> Some (parseFloat g)
         | None \<Rightarrow> None)"

text \<open>
  \<open>parseInt(s, 10)\<close> on a string of digits, the only strings \<open>getReviews\<close> passes: the
  number the leading digits denote, and \<open>NaN\<close> when there is no leading digit.
\<close>

definition parseInt :: "js_string \<Rightarrow> js_number" where
  "parseInt s =
     (let ds = takeWhile is_digit s
      in if ds = [] then NaN else Num (of_nat (decimal_value ds)))"

text \<open>\<open>replace(/[^\d]/g, '')\<close> keeps the digits of the text and drops the rest.\<close>

definition getReviews :: "item \<Rightarrow> js_number option" where
  "getReviews it =
     (case aria_label_ratings it of
        None \<Rightarrow> None
      | Some el \<Rightarrow>
          (case textContent el of
             None \<Rightarrow> None
           | Some t \<Rightarrow>
               (let text = filter is_digit t
                in if text = [] then None else Some (parseInt text))))"

definition getImage :: "item \<Rightarrow> js_string option" where
  "getImage it =
     (case img_s_image it of
        None \<Rightarrow> None
      | Some el \<Rightarrow>
          (case src el of
             None \<Rightarrow> None
           | Some u \<Rightarrow> if u = [] then None else Some u))"

text \<open>The object literal built for one item in \<open>parse\<close>.\<close>

definition product_record :: "item \<Rightarrow> ProductRecord" where
  "product_record it =
     \<lparr>title = getTitle it, rating = getRating it, reviews = getReviews it,
      image_url = getImage it\<rparr>"

text \<open>
  \<open>parse\<close>. The argument \<open>querySelectorAll\<close> stands for building the DOM of the
  markup and selecting the search-result items, which the DOM library returns in
  document order.
\<close>

definition parse :: "(js_string \<Rightarrow> item list) \<Rightarrow> js_string \<Rightarrow> ProductRecord list" where
  "parse querySelectorAll html = map product_record (take 20 (querySelectorAll html))"

subsection \<open>The extractors, step by step\<close>













text \<open>
  The rating of the data model, in the specification's words: null, or a number
  from 0.0 to 5.0.
\<close>

definition spec_rating :: "js_number option \<Rightarrow> bool" where
  "spec_rating r =
     (case r of None \<Rightarrow> True | Some NaN \<Rightarrow> False | Some (Num q) \<Rightarrow> 0 \<le> q \<and> q \<le> 5)"

section \<open>Cache\<close>

record 'v cache_entry =
  val :: 'v
  expiry :: int

record 'v Cache =
  ttlMs :: int
  store :: "js_string \<rightharpoonup> 'v cache_entry"

definition CACHE_TTL_MS :: int where
  "CACHE_TTL_MS = 5 * 60 * 1000"

text \<open>
  \<open>get\<close> and \<open>set\<close>, with the value of \<open>Date.now()\<close> as the argument \<open>now\<close>. \<open>get\<close>
  returns the cache as well, since it deletes an expired entry.
\<close>

definition Cache_get :: "int \<Rightarrow> 'v Cache \<Rightarrow> js_string \<Rightarrow> 'v option \<times> 'v Cache" where
  "Cache_get now this key =
     (case store this key of
        None \<Rightarrow> (None, this)
      | Some cached \<Rightarrow>
          if expiry cached < now then (None, this\<lparr>store := (store this)(key := None)\<rparr>)
          else (Some (val cached), this))"

definition Cache_set :: "int \<Rightarrow> 'v Cache \<Rightarrow> js_string \<Rightarrow> 'v \<Rightarrow> 'v Cache" where
  "Cache_set now this key v =
     this\<lparr>store := (store this)(key \<mapsto> \<lparr>val = v, expiry = now + ttlMs this\<rparr>)\<rparr>"

text \<open>
  The rule of the cache contract, in the specification's words: \<open>get\<close> returns null
  and evicts the entry if \<open>now \<ge> expiresAt\<close>, and returns the stored value otherwise.
\<close>

definition spec_get :: "int \<Rightarrow> 'v Cache \<Rightarrow> js_string \<Rightarrow> 'v option \<times> 'v Cache" where
  "spec_get now this key =
     (case store this key of
        None \<Rightarrow> (None, this)
      | Some cached \<Rightarrow>
          if now \<ge> expiry cached then (None, this\<lparr>store := (store this)(key := None)\<rparr>)
          else (Some (val cached), this))"

section \<open>AmazonScraperService\<close>

text \<open>
  The collaborators outside the program: the \<open>encodeURIComponent\<close> built-in, the
  outcome of the \<open>n\<close>-th \<open>axios.get\<close> on a URL, and the DOM query of \<open>parse\<close>.
\<close>

record env =
  encodeURIComponent :: "js_string \<Rightarrow> js_string option"
  axios_get :: "js_string \<Rightarrow> nat \<Rightarrow> axios_result"
  querySelectorAll :: "js_string \<Rightarrow> item list"

text \<open>
  The state a call of \<open>scrape\<close> reads and changes: the cache, the log of the HTTP
  client, and the URLs \<open>fetchHtml\<close> was called with, oldest first.
\<close>

record service =
  cache :: "ProductRecord list Cache"
  client_log :: fetch_log
  fetched :: "js_string list"

datatype scrape_error =
    ValidationError validation_error
  | URIError
  | FetchError fetch_error

text \<open>
  \<open>scrape\<close>. \<open>t_get\<close> and \<open>t_set\<close> are the values of \<open>Date.now()\<close> at the cache
  lookup and at the cache store. A cached value is an array, which is truthy even
  when empty, so every value \<open>get\<close> returns is a hit. The markup handed to \<open>parse\<close>
  is the fetched text; \<open>undefined\<close> is parsed as the empty document.
\<close>

definition scrape ::
  "env \<Rightarrow> int \<Rightarrow> int \<Rightarrow> service \<Rightarrow> js_string option
     \<Rightarrow> (scrape_error + ProductRecord list) \<times> service" where
  "scrape e t_get t_set this keyword =
     (case validate keyword of
        Inl err \<Rightarrow> (Inl (ValidationError err), this)
      | Inr validatedKeyword \<Rightarrow>
          (case Cache_get t_get (cache this) validatedKeyword of
             (Some cached, c) \<Rightarrow> (Inr cached, this\<lparr>cache := c\<rparr>)
           | (None, c) \<Rightarrow>
               (case build (encodeURIComponent e) validatedKeyword of
                  None \<Rightarrow> (Inl URIError, this\<lparr>cache := c\<rparr>)
                | Some url \<Rightarrow>
                    (case fetchHtml httpClient (axios_get e url) (client_log this) of
                       (Inl err, lg) \<Rightarrow>
                         (Inl (FetchError err),
                          this\<lparr>cache := c, client_log := lg, fetched := fetched this @ [url]\<rparr>)
                     | (Inr html, lg) \<Rightarrow>
                         (let parsed = parse (querySelectorAll e)
                                         (case html of None \<Rightarrow> [] | Some h \<Rightarrow> h)
                          in (Inr parsed,
                              this\<lparr>cache := Cache_set t_set c validatedKeyword parsed,
                                   client_log := lg,
                                   fetched := fetched this @ [url]\<rparr>))))))"

section \<open>Example inputs\<close>

text \<open>
  A search-result item with all four substructures, the same item without its rating
  element, and the same item with a rating out of ten.
\<close>

definition example_item :: item where
  "example_item =
     \<lparr>h2_span = Some \<lparr>textContent = Some (js '' Anker USB-C Charger ''), src = None\<rparr>,
      a_icon_alt = Some \<lparr>textContent = Some (js ''4.7 out of 5 stars''), src = None\<rparr>,
      aria_label_ratings = Some \<lparr>textContent = Some (js ''1,234''), src = None\<rparr>,
      img_s_image = Some \<lparr>textContent = Some [], src = Some (js ''https://m.media-amazon.com/i.jpg'')\<rparr>\<rparr>"

definition example_item_no_rating :: item where
  "example_item_no_rating = example_item\<lparr>a_icon_alt := None\<rparr>"

definition example_item_out_of_ten :: item where
  "example_item_out_of_ten =
     example_item\<lparr>a_icon_alt := Some \<lparr>textContent = Some (js ''9.5 out of 10 stars''), src = None\<rparr>\<rparr>"


text \<open>A cache with one entry that expires at time 1000.\<close>

definition example_cache :: "nat Cache" where
  "example_cache = \<lparr>ttlMs = CACHE_TTL_MS, store = [js ''usb'' \<mapsto> \<lparr>val = 7, expiry = 1000\<rparr>]\<rparr>"

text \<open>
  An environment in which the upstream answers every request with status 200 and
  the markup holds two result items, and a service with an empty cache. The
  encoder is \<open>encodeURIComponent\<close> on keywords of letters, digits, hyphens and spaces.
\<close>

definition example_encode :: "js_string \<Rightarrow> js_string option" where
  "example_encode s = Some (concat (map (\<lambda>c. if c = 0x20 then js ''%20'' else [c]) s))"

definition example_env :: env where
  "example_env =
     \<lparr>encodeURIComponent = example_encode,
      axios_get = (\<lambda>url n. axios_settle (HttpResponse 200 (js ''<html></html>''))),
      querySelectorAll = (\<lambda>html. [example_item, example_item_no_rating])\<rparr>"

definition example_service :: service where
  "example_service =
     \<lparr>cache = \<lparr>ttlMs = CACHE_TTL_MS, store = Map.empty\<rparr>,
      client_log = \<lparr>requests = 0, delays = []\<rparr>,
      fetched = []\<rparr>"

section \<open>Facts about trimming\<close>

lemma trim_decompose:
  "\<exists>l r. s = l @ trim s @ r \<and> list_all is_space l \<and> list_all is_space r"
proof -
  let ?l = "takeWhile is_space s"
  let ?m = "dropWhile is_space s"
  let ?r = "rev (takeWhile is_space (rev ?m))"
  have m: "?m = trim s @ ?r"
    by (metis rev_append rev_rev_ident takeWhile_dropWhile_id trim_def)
  have "s = ?l @ ?m" by simp
  with m have "s = ?l @ trim s @ ?r" by simp
  moreover have "list_all is_space ?l"
    by (simp add: list_all_iff) (meson set_takeWhileD)
  moreover have "list_all is_space ?r"
    by (simp add: list_all_iff) (meson set_takeWhileD)
  ultimately show ?thesis by blast
qed

lemma set_trim_subset: "set (trim s) \<subseteq> set s"
proof -
  have "set (trim s) \<subseteq> set (dropWhile is_space s)"
    unfolding trim_def set_rev using set_dropWhileD [of _ is_space "rev (dropWhile is_space s)"]
    by auto
  also have "\<dots> \<subseteq> set s"
    using set_dropWhileD [of _ is_space s] by auto
  finally show ?thesis .
qed

lemma length_trim_le: "length (trim s) \<le> length s"
proof -
  have "length (trim s) \<le> length (dropWhile is_space s)"
    using length_dropWhile_le [of is_space "rev (dropWhile is_space s)"]
    by (simp add: trim_def)
  also have "\<dots> \<le> length s" by (rule length_dropWhile_le)
  finally show ?thesis .
qed

lemma trim_hd_not_space: "trim s \<noteq> [] \<Longrightarrow> \<not> is_space (hd (trim s))"
proof -
  assume ne: "trim s \<noteq> []"
  obtain l r where d: "s = l @ trim s @ r" and l: "list_all is_space l"
    using trim_decompose by blast
  let ?m = "dropWhile is_space s"
  have "?m \<noteq> []"
  proof
    assume "?m = []"
    then have "trim s = []" by (simp only: trim_def dropWhile.simps rev.simps)
    with ne show False by simp
  qed
  then have h: "\<not> is_space (hd ?m)" by (rule hd_dropWhile)
  have "trim s = rev (dropWhile is_space (rev ?m))" by (simp add: trim_def)
  moreover have "?m = rev (dropWhile is_space (rev ?m)) @ rev (takeWhile is_space (rev ?m))"
    by (metis rev_append rev_rev_ident takeWhile_dropWhile_id)
  ultimately have "?m = trim s @ rev (takeWhile is_space (rev ?m))" by simp
  then have "hd ?m = hd (trim s)" using ne by (metis hd_append2)
  with h show ?thesis by simp
qed

lemma trim_last_not_space: "trim s \<noteq> [] \<Longrightarrow> \<not> is_space (last (trim s))"
proof -
  assume ne: "trim s \<noteq> []"
  let ?d = "dropWhile is_space (rev (dropWhile is_space s))"
  have t: "trim s = rev ?d" by (simp add: trim_def)
  with ne have "?d \<noteq> []" by simp
  then have "\<not> is_space (hd ?d)" by (rule hd_dropWhile)
  moreover have "last (rev ?d) = hd ?d" using \<open>?d \<noteq> []\<close> by (simp add: last_rev)
  ultimately show ?thesis using t by simp
qed

lemma trim_empty_iff: "trim s = [] \<longleftrightarrow> list_all is_space s"
proof
  assume "trim s = []"
  then show "list_all is_space s"
    using trim_decompose [of s] by (metis append_Nil list_all_append)
next
  assume a: "list_all is_space s"
  then have "dropWhile is_space s = []" by (metis dropWhile_eq_Nil_conv list_all_iff)
  then show "trim s = []" by (simp only: trim_def dropWhile.simps rev.simps)
qed

lemma trim_idem: "trim (trim s) = trim s"
proof (cases "trim s = []")
  case True
  have "trim [] = []" by (simp add: trim_def)
  with True show ?thesis by simp
next
  case False
  let ?t = "trim s"
  have h: "\<not> is_space (hd ?t)" using False by (rule trim_hd_not_space)
  have l: "\<not> is_space (last ?t)" using False by (rule trim_last_not_space)
  from h False have 1: "dropWhile is_space ?t = ?t"
    by (cases ?t) auto
  from l False have 2: "dropWhile is_space (rev ?t) = rev ?t"
    by (cases "rev ?t") (auto simp: last_rev hd_rev)
  show ?thesis
    unfolding trim_def [of ?t] 1 2 by simp
qed

lemmas char_classes = is_digit_def is_word_char_def is_space_def keyword_char_def

section \<open>The keyword validator\<close>

text \<open>
  Claim C5. \<open>validate\<close> fails exactly when the keyword is absent or empty, is longer
  than 50 code units, or holds a code unit that is neither a word character, white
  space nor a hyphen. On every other input it returns the input trimmed: the result
  is the input without a prefix and a suffix of white space, and it neither begins
  nor ends with white space.
\<close>

theorem validate_fails_exactly_when_invalid:
  "(isl (validate raw) \<longleftrightarrow>
      (raw = None \<or> raw = Some [] \<or>
       (\<exists>s. raw = Some s \<and> (50 < length s \<or> (\<exists>c\<in>set s. \<not> keyword_char c)))))
   \<and> (\<forall>s. raw = Some s \<and> s \<noteq> [] \<and> length s \<le> 50 \<and> (\<forall>c\<in>set s. keyword_char c) \<longrightarrow>
        validate raw = Inr (trim s) \<and>
        (\<exists>l r. s = l @ trim s @ r \<and> list_all is_space l \<and> list_all is_space r) \<and>
        (trim s \<noteq> [] \<longrightarrow> \<not> is_space (hd (trim s)) \<and> \<not> is_space (last (trim s))))"
proof (intro conjI allI impI)
  show "isl (validate raw) \<longleftrightarrow>
      (raw = None \<or> raw = Some [] \<or>
       (\<exists>s. raw = Some s \<and> (50 < length s \<or> (\<exists>c\<in>set s. \<not> keyword_char c))))"
    by (cases raw)
       (auto simp: validate_def MAX_KEYWORD_LENGTH_def KEYWORD_REGEX_test_def list_all_iff)
next
  fix s
  assume a: "raw = Some s \<and> s \<noteq> [] \<and> length s \<le> 50 \<and> (\<forall>c\<in>set s. keyword_char c)"
  then show "validate raw = Inr (trim s)"
    by (simp add: validate_def MAX_KEYWORD_LENGTH_def KEYWORD_REGEX_test_def list_all_iff)
  show "\<exists>l r. s = l @ trim s @ r \<and> list_all is_space l \<and> list_all is_space r"
    by (rule trim_decompose)
  assume "trim s \<noteq> []"
  then show "\<not> is_space (hd (trim s))" and "\<not> is_space (last (trim s))"
    by (rule trim_hd_not_space, rule trim_last_not_space)
qed

theorem validate_fails_exactly_when_invalid_witness:
  "validate (Some (js '' usb-c hub  '')) = Inr (js ''usb-c hub'')
   \<and> isl (validate (Some (js ''usb@charger'')))"
proof -
  let ?s = "js '' usb-c hub  ''"
  have "Some ?s = Some ?s \<and> ?s \<noteq> [] \<and> length ?s \<le> 50 \<and> (\<forall>c\<in>set ?s. keyword_char c)"
    by (simp add: js_def char_classes)
  with validate_fails_exactly_when_invalid [of "Some ?s"]
  have "validate (Some ?s) = Inr (trim ?s)" by blast
  moreover have "trim ?s = js ''usb-c hub''"
    by (simp add: trim_def js_def char_classes)
  moreover have "\<exists>c\<in>set (js ''usb@charger''). \<not> keyword_char c"
    by (simp add: js_def char_classes)
  with validate_fails_exactly_when_invalid [of "Some (js ''usb@charger'')"]
  have "isl (validate (Some (js ''usb@charger'')))" by blast
  ultimately show ?thesis by simp
qed

text \<open>
  What \<open>validate\<close> returns: at most 50 code units, all in the allow-list, no white
  space at either end; a Keyword of the data model unless it is empty.
\<close>

lemma validate_result_shape:
  "validate raw = Inr k \<Longrightarrow>
     length k \<le> 50 \<and> list_all keyword_char k
     \<and> (k \<noteq> [] \<longrightarrow> \<not> is_space (hd k) \<and> \<not> is_space (last k) \<and> spec_Keyword k)
     \<and> (k = [] \<longleftrightarrow> (\<exists>s. raw = Some s \<and> s \<noteq> [] \<and> list_all is_space s))"
proof -
  assume v: "validate raw = Inr k"
  then obtain s where s: "raw = Some s" "s \<noteq> []" "length s \<le> 50" "list_all keyword_char s"
    and k: "k = trim s"
    by (cases raw)
       (auto simp: validate_def MAX_KEYWORD_LENGTH_def KEYWORD_REGEX_test_def split: if_splits)
  have len: "length k \<le> 50"
    using length_trim_le [of s] s(3) k by simp
  have cls: "list_all keyword_char k"
    using set_trim_subset [of s] s(4) k by (auto simp: list_all_iff)
  have ends: "k \<noteq> [] \<longrightarrow> \<not> is_space (hd k) \<and> \<not> is_space (last k) \<and> spec_Keyword k"
    using trim_hd_not_space [of s] trim_last_not_space [of s] k len cls
    by (auto simp: spec_Keyword_def Suc_le_eq)
  have emp: "k = [] \<longleftrightarrow> (\<exists>s. raw = Some s \<and> s \<noteq> [] \<and> list_all is_space s)"
    using s(1,2) k trim_empty_iff [of s] by auto
  from len cls ends emp show ?thesis by blast
qed

text \<open>
  On a keyword that is already trimmed, as the request handler passes it, every
  returned value is a Keyword of the data model.
\<close>

lemma validate_Keyword_on_trimmed_input:
  "validate (Some s) = Inr k \<Longrightarrow> trim s = s \<Longrightarrow> spec_Keyword k"
  by (auto simp: validate_def MAX_KEYWORD_LENGTH_def KEYWORD_REGEX_test_def spec_Keyword_def
        Suc_le_eq split: if_splits)


text \<open>
  Claim C10. The length limit is checked on the raw keyword, before trimming: a raw
  keyword of more than 50 code units is rejected as too long even when its trimmed
  content is a Keyword that \<open>validate\<close> accepts on its own. The instance is a keyword
  of 48 letters followed by 5 spaces.
\<close>

theorem validate_length_checked_before_trim:
  "50 < length s \<Longrightarrow> spec_Keyword (trim s) \<Longrightarrow>
     validate (Some s) = Inl KeywordTooLong \<and> validate (Some (trim s)) = Inr (trim s)"
proof -
  assume long: "50 < length s" and kw: "spec_Keyword (trim s)"
  from long have "s \<noteq> []" by auto
  with long have 1: "validate (Some s) = Inl KeywordTooLong"
    by (simp add: validate_def MAX_KEYWORD_LENGTH_def)
  from kw have "validate (Some (trim s)) = Inr (trim (trim s))"
    by (auto simp: validate_def MAX_KEYWORD_LENGTH_def KEYWORD_REGEX_test_def spec_Keyword_def)
  with 1 show ?thesis by (simp add: trim_idem)
qed

theorem validate_length_checked_before_trim_witness:
  "validate (Some (replicate 48 0x61 @ replicate 5 0x20)) = Inl KeywordTooLong
   \<and> validate (Some (replicate 48 0x61)) = Inr (replicate 48 0x61)"
proof -
  let ?s = "replicate 48 (0x61 :: code_unit) @ replicate 5 0x20"
  have t: "trim ?s = replicate 48 0x61"
    by (simp add: trim_def char_classes dropWhile_append)
  have l: "50 < length ?s" by simp
  have k: "spec_Keyword (trim ?s)"
    unfolding t by (simp add: spec_Keyword_def char_classes list_all_iff)
  from validate_length_checked_before_trim [OF l k] t show ?thesis by simp
qed

section \<open>The HTTP client\<close>

declare fetchHtml_loop.simps [simp del]
declare decimal.simps [simp del]

lemma loop_after_503s:
  "attempt + k \<le> maxRetries this \<Longrightarrow>
   \<forall>i<k. \<exists>m. http (requests lg + i) = Rejected (Some 503) m \<Longrightarrow>
   fetchHtml_loop this http attempt lg =
   fetchHtml_loop this http (attempt + k)
     (lg\<lparr>requests := requests lg + k,
         delays := delays lg @ map (\<lambda>i. retryDelay this * (attempt + i)) [1..<Suc k]\<rparr>)"
proof (induction k)
  case 0
  then show ?case by simp
next
  case (Suc k)
  let ?lg = "lg\<lparr>requests := requests lg + k,
         delays := delays lg @ map (\<lambda>i. retryDelay this * (attempt + i)) [1..<Suc k]\<rparr>"
  from Suc.prems have le: "attempt + k \<le> maxRetries this" and lt: "attempt + k < maxRetries this"
    by simp_all
  from Suc.prems(2) have pre: "\<forall>i<k. \<exists>m. http (requests lg + i) = Rejected (Some 503) m"
    by simp
  from Suc.prems(2) obtain m where m: "http (requests lg + k) = Rejected (Some 503) m"
    by blast
  have "fetchHtml_loop this http attempt lg = fetchHtml_loop this http (attempt + k) ?lg"
    using Suc.IH [OF le pre] .
  also have "\<dots> = fetchHtml_loop this http (attempt + k + 1)
      (?lg\<lparr>requests := requests ?lg + 1,
           delays := delays ?lg @ [retryDelay this * (attempt + k + 1)]\<rparr>)"
    using le lt m by (subst fetchHtml_loop.simps) simp
  finally show ?case by simp
qed

lemma loop_requests_bound:
  "attempt \<le> maxRetries this \<Longrightarrow>
   requests (snd (fetchHtml_loop this http attempt lg)) + attempt \<le> requests lg + Suc (maxRetries this)
   \<and> length (delays (snd (fetchHtml_loop this http attempt lg))) + requests lg + 1
       = length (delays lg) + requests (snd (fetchHtml_loop this http attempt lg))"
proof (induction this http attempt lg rule: fetchHtml_loop.induct)
  case (1 this http attempt lg)
  show ?case
  proof (cases "http (requests lg)")
    case (Resolved st data)
    with "1.prems" show ?thesis by (subst (1 2 3) fetchHtml_loop.simps) simp
  next
    case (Rejected status message)
    show ?thesis
    proof (cases "status = Some 503 \<and> \<not> attempt + 1 > maxRetries this")
      case True
      then have a: "attempt + 1 \<le> maxRetries this" by simp
      let ?lg = "lg\<lparr>requests := requests lg + 1,
                    delays := delays lg @ [retryDelay this * (attempt + 1)]\<rparr>"
      let ?out = "snd (fetchHtml_loop this http (attempt + 1) ?lg)"
      have eq: "fetchHtml_loop this http attempt lg = fetchHtml_loop this http (attempt + 1) ?lg"
        using True Rejected "1.prems" by (subst fetchHtml_loop.simps) simp
      have ih: "requests ?out + (attempt + 1) \<le> requests ?lg + Suc (maxRetries this)
         \<and> length (delays ?out) + requests ?lg + 1 = length (delays ?lg) + requests ?out"
        using "1.IH" [OF "1.prems" Rejected _ _ _ a] True by simp
      have r: "requests ?lg = requests lg + 1" and d: "length (delays ?lg) = length (delays lg) + 1"
        by simp_all
      from ih show ?thesis unfolding eq r d by linarith
    next
      case False
      with Rejected "1.prems" show ?thesis
        by (subst (1 2 3) fetchHtml_loop.simps) (auto split: option.splits)
    qed
  qed
qed

text \<open>The loop body runs at least once, so \<open>fetchHtml\<close> never returns \<open>undefined\<close>.\<close>

lemma loop_never_undefined:
  "attempt \<le> maxRetries this \<Longrightarrow> fst (fetchHtml_loop this http attempt lg) \<noteq> Inr None"
proof (induction this http attempt lg rule: fetchHtml_loop.induct)
  case (1 this http attempt lg)
  show ?case
  proof (cases "http (requests lg)")
    case (Resolved st data)
    with "1.prems" show ?thesis by (subst fetchHtml_loop.simps) simp
  next
    case (Rejected status message)
    show ?thesis
    proof (cases "status = Some 503 \<and> \<not> attempt + 1 > maxRetries this")
      case True
      then have a: "attempt + 1 \<le> maxRetries this" by simp
      have "fst (fetchHtml_loop this http (attempt + 1)
                   (lg\<lparr>requests := requests lg + 1,
                       delays := delays lg @ [retryDelay this * (attempt + 1)]\<rparr>)) \<noteq> Inr None"
        using "1.IH" [OF "1.prems" Rejected _ _ _ a] True by simp
      then show ?thesis
        using True Rejected "1.prems" by (subst fetchHtml_loop.simps) simp
    next
      case False
      with Rejected "1.prems" show ?thesis
        by (subst fetchHtml_loop.simps) (auto split: option.splits)
    qed
  qed
qed

lemma fetchHtml_never_undefined: "fst (fetchHtml this http lg) \<noteq> Inr None"
  unfolding fetchHtml_def by (rule loop_never_undefined) simp

lemma settled_never_redirect:
  "axios_settle u = Rejected (Some st) m \<Longrightarrow> \<not> (300 \<le> st \<and> st < 400)"
  by (auto simp: axios_settle_def validateStatus_def split: upstream.splits if_splits)

lemma redirect_branch_unreachable:
  "fst (fetchHtml_loop this (\<lambda>n. axios_settle (up n)) attempt lg) \<noteq> Inl (RedirectBlocked st)"
proof (induction this "\<lambda>n. axios_settle (up n)" attempt lg rule: fetchHtml_loop.induct)
  case (1 this attempt lg)
  show ?case
  proof (cases "attempt \<le> maxRetries this")
    case False
    then show ?thesis by (subst fetchHtml_loop.simps) simp
  next
    case True
    show ?thesis
    proof (cases "axios_settle (up (requests lg))")
      case (Resolved s d)
      with True show ?thesis by (subst fetchHtml_loop.simps) simp
    next
      case (Rejected status message)
      have nr: "\<not> (case status of None \<Rightarrow> False | Some st \<Rightarrow> st \<noteq> 0 \<and> 300 \<le> st \<and> st < 400)"
        using settled_never_redirect [of "up (requests lg)"] Rejected
        by (auto split: option.splits)
      show ?thesis
      proof (cases "status = Some 503 \<and> \<not> attempt + 1 > maxRetries this")
        case c: True
        then show ?thesis
          using "1.hyps" [OF True Rejected nr] True Rejected nr
          by (subst fetchHtml_loop.simps) simp
      next
        case False
        then show ?thesis using True Rejected nr
          by (subst fetchHtml_loop.simps) (auto split: option.splits)
      qed
    qed
  qed
qed

lemma decimal_503: "decimal 503 = js ''503''"
  by (simp add: decimal.simps js_def)

text \<open>
  Claim C2, as amended. Take a run of \<open>fetchHtml\<close> on the program's client in which the first \<open>k\<close>
  requests, \<open>k \<le> 3\<close>, were answered with status 503. Before the \<open>i\<close>-th retry the
  client has waited \<open>i * 1000\<close> ms, so the delays so far are 1000, 2000, ... up to
  \<open>k * 1000\<close>. If the next request succeeds, its body is returned. If it is a fourth
  503, the three retries are used up and the error thrown carries the message of
  this last failure. If it fails in any other way, with another status or with no
  response at all, an error is thrown at once: no further request, no further wait.
  Whatever the upstream does, a run makes at most 4 attempts (the first request and
  3 retries) and waits at most 3 times.
\<close>

theorem fetchHtml_retry_policy:
  assumes "k \<le> 3"
    and "\<forall>i<k. \<exists>m. http (requests lg + i) = Rejected (Some 503) m"
  shows "(let done = lg\<lparr>requests := requests lg + k + 1,
                         delays := delays lg @ map (\<lambda>i. 1000 * i) [1..<Suc k]\<rparr>
          in case http (requests lg + k) of
               Resolved st data \<Rightarrow> fetchHtml httpClient http lg = (Inr (Some data), done)
             | Rejected status message \<Rightarrow>
                 if status = Some 503
                 then k = 3 \<longrightarrow>
                      fetchHtml httpClient http lg = (Inl (FailedAfterRetries 3 message), done)
                 else isl (fst (fetchHtml httpClient http lg))
                      \<and> snd (fetchHtml httpClient http lg) = done)
         \<and> requests (snd (fetchHtml httpClient http lg)) \<le> requests lg + 4
         \<and> length (delays (snd (fetchHtml httpClient http lg))) \<le> length (delays lg) + 3"
proof -
  define ds where "ds = map (\<lambda>i. 1000 * i) [1..<Suc k]"
  let ?lg = "lg\<lparr>requests := requests lg + k, delays := delays lg @ ds\<rparr>"
  let ?done = "lg\<lparr>requests := requests lg + k + 1, delays := delays lg @ ds\<rparr>"
  have dn: "?lg\<lparr>requests := requests ?lg + 1\<rparr> = ?done" by simp
  have k: "k \<le> maxRetries httpClient" using assms(1) by (simp add: httpClient_def)
  have "fetchHtml httpClient http lg = fetchHtml_loop httpClient http (0 + k)
      (lg\<lparr>requests := requests lg + k,
         delays := delays lg @ map (\<lambda>i. retryDelay httpClient * (0 + i)) [1..<Suc k]\<rparr>)"
    unfolding fetchHtml_def using assms by (intro loop_after_503s) (simp_all add: httpClient_def)
  also have "map (\<lambda>i. retryDelay httpClient * (0 + i)) [1..<Suc k] = ds"
    unfolding ds_def by (simp add: httpClient_def)
  finally have start: "fetchHtml httpClient http lg = fetchHtml_loop httpClient http k ?lg"
    by simp
  have main: "case http (requests lg + k) of
               Resolved st data \<Rightarrow> fetchHtml httpClient http lg = (Inr (Some data), ?done)
             | Rejected status message \<Rightarrow>
                 if status = Some 503
                 then k = 3 \<longrightarrow>
                      fetchHtml httpClient http lg = (Inl (FailedAfterRetries 3 message), ?done)
                 else isl (fst (fetchHtml httpClient http lg))
                      \<and> snd (fetchHtml httpClient http lg) = ?done"
  proof (cases "http (requests lg + k)")
    case (Resolved st data)
    then have "fetchHtml_loop httpClient http k ?lg
                 = (Inr (Some data), ?lg\<lparr>requests := requests ?lg + 1\<rparr>)"
      using k by (subst fetchHtml_loop.simps) simp
    then show ?thesis unfolding dn start using Resolved by simp
  next
    case (Rejected status message)
    show ?thesis
    proof (cases "status = Some 503")
      case True
      have "fetchHtml_loop httpClient http k ?lg
                 = (Inl (FailedAfterRetries 3 message), ?lg\<lparr>requests := requests ?lg + 1\<rparr>)"
        if "k = 3"
        using Rejected True that by (subst fetchHtml_loop.simps) (simp add: httpClient_def)
      then show ?thesis unfolding dn start using Rejected True by simp
    next
      case False
      have "isl (fst (fetchHtml_loop httpClient http k ?lg))
            \<and> snd (fetchHtml_loop httpClient http k ?lg) = ?lg\<lparr>requests := requests ?lg + 1\<rparr>"
        using Rejected False k
        by (subst (1 2) fetchHtml_loop.simps) (auto split: option.splits)
      then show ?thesis unfolding dn start using Rejected False by simp
    qed
  qed
  have b: "requests (snd (fetchHtml_loop httpClient http 0 lg)) + 0 \<le> requests lg + Suc (maxRetries httpClient)
   \<and> length (delays (snd (fetchHtml_loop httpClient http 0 lg))) + requests lg + 1
       = length (delays lg) + requests (snd (fetchHtml_loop httpClient http 0 lg))"
    by (rule loop_requests_bound) simp
  then have bound: "requests (snd (fetchHtml httpClient http lg)) \<le> requests lg + 4
         \<and> length (delays (snd (fetchHtml httpClient http lg))) \<le> length (delays lg) + 3"
    unfolding fetchHtml_def by (simp add: httpClient_def)
  from main bound show ?thesis unfolding ds_def Let_def by blast
qed

theorem fetchHtml_retry_policy_witness:
  "fetchHtml httpClient (\<lambda>n. axios_settle (HttpResponse 503 [])) \<lparr>requests = 0, delays = []\<rparr>
     = (Inl (FailedAfterRetries 3 (js ''Request failed with status code 503'')),
        \<lparr>requests = 4, delays = [1000, 2000, 3000]\<rparr>)"
proof -
  let ?http = "\<lambda>n::nat. axios_settle (HttpResponse 503 [])"
  let ?lg = "\<lparr>requests = 0, delays = []\<rparr>"
  have s: "axios_settle (HttpResponse 503 []) = Rejected (Some 503) (js ''Request failed with status code 503'')"
    by (simp add: axios_settle_def validateStatus_def decimal_503 js_def)
  have h: "\<forall>i<3. \<exists>m. ?http (requests ?lg + i) = Rejected (Some 503) m"
    using s by simp
  have u: "map (\<lambda>i. 1000 * i) [1..<Suc 3] = [1000, 2000, 3000::nat]"
    by (simp add: upt_rec)
  have "3 \<le> (3::nat)" by simp
  from fetchHtml_retry_policy [of 3 ?http ?lg, OF this h] show ?thesis
    unfolding u Let_def by (simp add: s)
qed

text \<open>
  Claim C2 as the specification states it fails on the number of attempts: after
  three answers with status 503 the client makes a fourth attempt, which here
  succeeds.
\<close>

theorem fetchHtml_fourth_attempt_counterexample:
  "fetchHtml httpClient
       (\<lambda>n. axios_settle (if n < 3 then HttpResponse 503 [] else HttpResponse 200 (js ''ok'')))
       \<lparr>requests = 0, delays = []\<rparr>
     = (Inr (Some (js ''ok'')), \<lparr>requests = 4, delays = [1000, 2000, 3000]\<rparr>)
   \<and> \<not> requests (snd (fetchHtml httpClient
       (\<lambda>n. axios_settle (if n < 3 then HttpResponse 503 [] else HttpResponse 200 (js ''ok'')))
       \<lparr>requests = 0, delays = []\<rparr>)) \<le> 3"
  by (simp add: fetchHtml_def fetchHtml_loop.simps axios_settle_def validateStatus_def
        httpClient_def)

text \<open>
  A response with any status from 300 to 399 resolves the promise, so \<open>fetchHtml\<close>
  returns its body after one request.
\<close>

lemma redirect_status_resolves:
  "300 \<le> st \<Longrightarrow> st < 400 \<Longrightarrow> http (requests lg) = axios_settle (HttpResponse st body) \<Longrightarrow>
   fetchHtml this http lg = (Inr (Some body), lg\<lparr>requests := requests lg + 1\<rparr>)"
  by (simp add: fetchHtml_def fetchHtml_loop.simps axios_settle_def validateStatus_def)

text \<open>
  Claim C1 on the code. The catch block has a branch that throws "Redirect blocked"
  for a status from 300 to 399, but \<open>validateStatus\<close> accepts every status below 400,
  so a response with such a status resolves the promise and never reaches that
  branch: \<open>fetchHtml\<close> returns its body. Here the upstream answers 302.
\<close>

theorem redirect_response_is_returned:
  "fetchHtml httpClient (\<lambda>n. axios_settle (HttpResponse 302 (js ''moved'')))
       \<lparr>requests = 0, delays = []\<rparr>
     = (Inr (Some (js ''moved'')), \<lparr>requests = 1, delays = []\<rparr>)"
  by (simp add: fetchHtml_def fetchHtml_loop.simps axios_settle_def validateStatus_def httpClient_def)

section \<open>The cache\<close>

text \<open>
  Claim C3, as amended. For a key with a stored entry, \<open>get\<close> returns null and deletes
  the entry exactly when \<open>now\<close> is strictly greater than the entry's expiry time;
  when \<open>now\<close> is at most the expiry time, in particular at the instant they are
  equal, \<open>get\<close> returns the stored value and leaves the cache as it is.
\<close>

theorem Cache_get_expiry:
  "store this key = Some cached \<Longrightarrow>
     (expiry cached < now \<longrightarrow>
        Cache_get now this key = (None, this\<lparr>store := (store this)(key := None)\<rparr>))
     \<and> (now \<le> expiry cached \<longrightarrow> Cache_get now this key = (Some (val cached), this))"
  by (simp add: Cache_get_def)

theorem Cache_get_expiry_witness:
  "Cache_get 1001 example_cache (js ''usb'') = (None, example_cache\<lparr>store := Map.empty\<rparr>)
   \<and> Cache_get 999 example_cache (js ''usb'') = (Some 7, example_cache)"
proof -
  have s: "store example_cache (js ''usb'') = Some \<lparr>val = 7, expiry = 1000\<rparr>"
    by (simp add: example_cache_def)
  have e: "(store example_cache)(js ''usb'' := None) = Map.empty"
    by (simp add: example_cache_def)
  from Cache_get_expiry [OF s, of 1001] Cache_get_expiry [OF s, of 999] e
  show ?thesis by simp
qed

text \<open>
  Claim C3 as the specification states it fails at the instant \<open>now\<close> equals the
  expiry time: the code compares with \<open>expiry < now\<close>, so the value is still returned,
  where the rule of the specification returns null.
\<close>

theorem Cache_get_at_expiry_counterexample:
  "fst (Cache_get 1000 example_cache (js ''usb'')) = Some 7
   \<and> fst (spec_get 1000 example_cache (js ''usb'')) = None"
  by (simp add: Cache_get_def spec_get_def example_cache_def)

section \<open>The parser\<close>

lemmas parser_defs = product_record_def getTitle_def getRating_def getReviews_def getImage_def
  rating_match_at_def parseFloat_def parseInt_def decimal_value_def is_rating_char_def trim_def
  js_def

lemma example_item_record: "product_record example_item =
   \<lparr>title = Some (js ''Anker USB-C Charger''), rating = Some (Num (47 / 10)),
    reviews = Some (Num 1234),
    image_url = Some (js ''https://m.media-amazon.com/i.jpg'')\<rparr>"
  by (simp add: example_item_def parser_defs char_classes Let_def)

lemma example_item_out_of_ten_rating: "rating (product_record example_item_out_of_ten) = Some (Num (19 / 2))"
  by (simp add: example_item_out_of_ten_def example_item_def parser_defs char_classes Let_def)









lemma parseFloat_nonneg: "parseFloat s = Num x \<Longrightarrow> 0 \<le> x"
  by (auto simp: parseFloat_def Let_def split: if_splits)

text \<open>
  Claim C4, as amended. The rating of every record that \<open>parse\<close> produces is null,
  \<open>NaN\<close>, or a non-negative number: the value \<open>parseFloat\<close> reads from the digits and
  dots captured before "out of". No upper bound of 5.0 is enforced.
\<close>

theorem rating_null_NaN_or_nonnegative:
  "r \<in> set (parse q html) \<Longrightarrow>
     rating r = None \<or> rating r = Some NaN \<or> (\<exists>x. rating r = Some (Num x) \<and> 0 \<le> x)"
proof -
  assume "r \<in> set (parse q html)"
  then obtain it where r: "r = product_record it"
    by (auto simp: parse_def)
  show ?thesis
  proof (cases "rating r")
    case None
    then show ?thesis by simp
  next
    case (Some n)
    then obtain g where "rating r = Some (parseFloat g)"
      using r by (auto simp: product_record_def getRating_def Let_def split: option.splits)
    then show ?thesis
      using parseFloat_nonneg [of g] by (cases "parseFloat g") auto
  qed
qed

theorem rating_null_NaN_or_nonnegative_witness:
  "product_record example_item \<in> set (parse (\<lambda>h. [example_item]) [])
   \<and> rating (product_record example_item) = Some (Num (47 / 10))"
proof -
  have m: "product_record example_item \<in> set (parse (\<lambda>h. [example_item]) [])"
    by (simp add: parse_def)
  have "rating (product_record example_item) = Some (Num (47 / 10))"
    using rating_null_NaN_or_nonnegative [OF m] by (simp add: example_item_record)
  with m show ?thesis by simp
qed

text \<open>
  Claim C4 as the specification states it fails on markup whose rating text is
  "9.5 out of 10 stars": the record's rating is 9.5.
\<close>

theorem rating_above_five_counterexample:
  "rating (hd (parse (\<lambda>h. [example_item_out_of_ten]) [])) = Some (Num (19 / 2))
   \<and> \<not> spec_rating (Some (Num (19 / 2)))"
  by (simp add: parse_def example_item_out_of_ten_rating spec_rating_def)

text \<open>
  Claim C7. \<open>parse\<close> returns one record for each of the first 20 result items of the
  markup and none for the others, so at most 20 records, and the record at each
  position is the record of the item at the same position in document order.
\<close>

theorem parse_at_most_20_in_order:
  "length (parse q html) = min 20 (length (q html))
   \<and> length (parse q html) \<le> 20
   \<and> (\<forall>i < length (parse q html). parse q html ! i = product_record (q html ! i))"
  by (simp add: parse_def)

theorem parse_at_most_20_in_order_witness:
  "length (parse (\<lambda>h. example_item # example_item_no_rating # replicate 23 example_item) []) = 20
   \<and> parse (\<lambda>h. example_item # example_item_no_rating # replicate 23 example_item) [] ! 1
       = product_record example_item_no_rating"
proof -
  let ?q = "\<lambda>h::js_string. example_item # example_item_no_rating # replicate 23 example_item"
  have l: "length (parse ?q []) = 20"
    using parse_at_most_20_in_order [of ?q "[]"] by simp
  then have "1 < length (parse ?q [])" by simp
  with parse_at_most_20_in_order [of ?q "[]"]
  have "parse ?q [] ! 1 = product_record (?q [] ! 1)" by blast
  with l show ?thesis by simp
qed
















section \<open>The scraper service\<close>

lemma ttlMs_Cache_get: "ttlMs (snd (Cache_get now c k)) = ttlMs c"
  by (simp add: Cache_get_def split: option.splits)

text \<open>
  Claim C9. Let a first call of \<open>scrape\<close> with a valid keyword miss the cache, fetch
  and return a result set. A second call with a raw keyword that validates to the
  same keyword, at a time not later than the expiry of the entry the first call
  stored (the time of the store plus the TTL), returns that same result set from
  the cache and leaves the service as it is, whatever the upstream would answer
  now. Over the two calls \<open>fetchHtml\<close> is called exactly once.
\<close>

theorem scrape_twice_one_fetch:
  assumes "validate kw = Inr k" and "validate kw' = Inr k"
    and "fst (Cache_get t1 (cache sv) k) = None"
    and "scrape e t1 t1' sv kw = (Inr rs, sv1)"
    and "t2 \<le> t1' + ttlMs (cache sv)"
  shows "scrape e' t2 t2' sv1 kw' = (Inr rs, sv1)
         \<and> (\<exists>url. fetched (snd (scrape e' t2 t2' sv1 kw')) = fetched sv @ [url])"
proof -
  obtain c where g: "Cache_get t1 (cache sv) k = (None, c)"
    using assms(3) by (cases "Cache_get t1 (cache sv) k") simp
  have ttl: "ttlMs c = ttlMs (cache sv)"
    using ttlMs_Cache_get [of t1 "cache sv" k] g by simp
  obtain url where u: "build (encodeURIComponent e) k = Some url"
    using assms(1,4) g by (cases "build (encodeURIComponent e) k") (auto simp: scrape_def)
  obtain res lg where f: "fetchHtml httpClient (axios_get e url) (client_log sv) = (res, lg)"
    by (cases "fetchHtml httpClient (axios_get e url) (client_log sv)")
  from assms(1,4) g u f obtain html where res: "res = Inr html"
    by (cases res) (auto simp: scrape_def)
  from assms(1,4) g u f res
  have sv1: "sv1 = sv\<lparr>cache := Cache_set t1' c k rs, client_log := lg,
                       fetched := fetched sv @ [url]\<rparr>"
    by (auto simp: scrape_def Let_def)
  have st: "store (cache sv1) k = Some \<lparr>val = rs, expiry = t1' + ttlMs (cache sv)\<rparr>"
    unfolding sv1 by (simp add: Cache_set_def ttl)
  have hit: "Cache_get t2 (cache sv1) k = (Some rs, cache sv1)"
    using st assms(5) by (simp add: Cache_get_def)
  have second: "scrape e' t2 t2' sv1 kw' = (Inr rs, sv1)"
    using assms(2) hit by (simp add: scrape_def)
  moreover have "\<exists>url. fetched sv1 = fetched sv @ [url]"
    unfolding sv1 by simp
  ultimately show ?thesis by simp
qed

lemma example_first_call:
  "fst (scrape example_env 0 10 example_service (Some (js ''usb charger'')))
     = Inr [product_record example_item, product_record example_item_no_rating]"
  by (simp add: scrape_def validate_def MAX_KEYWORD_LENGTH_def KEYWORD_REGEX_test_def trim_def
        js_def char_classes Cache_get_def example_service_def example_env_def build_def
        example_encode_def fetchHtml_def fetchHtml_loop.simps axios_settle_def validateStatus_def
        httpClient_def parse_def Let_def)

theorem scrape_twice_one_fetch_witness:
  "scrape example_env 300010 300020
       (snd (scrape example_env 0 10 example_service (Some (js ''usb charger''))))
       (Some (js '' usb charger ''))
     = (Inr [product_record example_item, product_record example_item_no_rating],
        snd (scrape example_env 0 10 example_service (Some (js ''usb charger''))))"
proof -
  let ?sv1 = "snd (scrape example_env 0 10 example_service (Some (js ''usb charger'')))"
  let ?rs = "[product_record example_item, product_record example_item_no_rating]"
  have v1: "validate (Some (js ''usb charger'')) = Inr (js ''usb charger'')"
    by (simp add: validate_def MAX_KEYWORD_LENGTH_def KEYWORD_REGEX_test_def trim_def js_def
          char_classes)
  have v2: "validate (Some (js '' usb charger '')) = Inr (js ''usb charger'')"
    by (simp add: validate_def MAX_KEYWORD_LENGTH_def KEYWORD_REGEX_test_def trim_def js_def
          char_classes)
  have miss: "fst (Cache_get 0 (cache example_service) (js ''usb charger'')) = None"
    by (simp add: Cache_get_def example_service_def)
  have first': "scrape example_env 0 10 example_service (Some (js ''usb charger'')) = (Inr ?rs, ?sv1)"
    using example_first_call by (simp add: prod_eq_iff)
  have within: "(300010::int) \<le> 10 + ttlMs (cache example_service)"
    by (simp add: example_service_def CACHE_TTL_MS_def)
  from scrape_twice_one_fetch [OF v1 v2 miss first' within, of example_env 300020]
  show ?thesis by simp
qed

end
